theory Spec2Isabelle
  imports Main "HOL-Library.Word"
begin

unbundle bit_operations_syntax

section \<open>linux/ioprio.h: the I/O priority macros\<close>

text \<open>
  The macros of \<^verbatim>\<open>libc/kernel/common/linux/ioprio.h\<close>, on 32-bit values (C \<^verbatim>\<open>int\<close>;
  \<^verbatim>\<open>1UL\<close> is an unsigned long, 32 bits wide on the ILP32 targets of this library).
  \<^verbatim>\<open><<\<close> is \<open>push_bit\<close>, \<^verbatim>\<open>>>\<close> is \<open>drop_bit\<close>, \<^verbatim>\<open>&\<close> is \<open>AND\<close>, \<^verbatim>\<open>|\<close> is \<open>OR\<close>.
\<close>

definition IOPRIO_BITS :: nat where
  "IOPRIO_BITS = 16"

definition IOPRIO_CLASS_SHIFT :: nat where
  "IOPRIO_CLASS_SHIFT = 13"

definition IOPRIO_PRIO_MASK :: "32 word" where
  "IOPRIO_PRIO_MASK = push_bit IOPRIO_CLASS_SHIFT 1 - 1"

definition IOPRIO_PRIO_CLASS :: "32 word \<Rightarrow> 32 word" where
  "IOPRIO_PRIO_CLASS msk = drop_bit IOPRIO_CLASS_SHIFT msk"

definition IOPRIO_PRIO_DATA :: "32 word \<Rightarrow> 32 word" where
  "IOPRIO_PRIO_DATA msk = msk AND IOPRIO_PRIO_MASK"

definition IOPRIO_PRIO_VALUE :: "32 word \<Rightarrow> 32 word \<Rightarrow> 32 word" where
  "IOPRIO_PRIO_VALUE cls data = push_bit IOPRIO_CLASS_SHIFT cls OR data"

text \<open>The anonymous enum of the classes: consecutive values from 0.\<close>

definition IOPRIO_CLASS_NONE :: "32 word" where
  "IOPRIO_CLASS_NONE = 0"

definition IOPRIO_CLASS_RT :: "32 word" where
  "IOPRIO_CLASS_RT = 1"

definition IOPRIO_CLASS_BE :: "32 word" where
  "IOPRIO_CLASS_BE = 2"

definition IOPRIO_CLASS_IDLE :: "32 word" where
  "IOPRIO_CLASS_IDLE = 3"

definition ioprio_valid :: "32 word \<Rightarrow> bool" where
  "ioprio_valid msk \<longleftrightarrow> IOPRIO_PRIO_CLASS msk \<noteq> IOPRIO_CLASS_NONE"

definition IOPRIO_BE_NR :: "32 word" where
  "IOPRIO_BE_NR = 8"

definition IOPRIO_NORM :: "32 word" where
  "IOPRIO_NORM = 4"


section \<open>pthread_setname_np: the environment\<close>

text \<open>
  Error numbers are C \<^verbatim>\<open>int\<close>s. The four the function names come from \<^verbatim>\<open>errno.h\<close>,
  and \<^verbatim>\<open>O_RDWR\<close> from \<^verbatim>\<open>fcntl.h\<close>; neither header is among the sources, and the
  constants have their Linux values.
\<close>

definition EINTR :: int where
  "EINTR = 4"

definition EIO :: int where
  "EIO = 5"

definition EINVAL :: int where
  "EINVAL = 22"

definition ERANGE :: int where
  "ERANGE = 34"

definition O_RDWR :: int where
  "O_RDWR = 2"

text \<open>
  What the kernel answers to a system call: success with a value, or failure with an
  error number. The C library's stub turns the answer into the C result: the value on
  success, and on failure \<open>-1\<close> with \<^verbatim>\<open>errno\<close> set to the error number.
\<close>

datatype 'a sysres = Ok 'a | Err int

text \<open>The system calls the function issues, with their arguments.\<close>

datatype syscall =
    Prctl_set_name string
  | Open string int
  | Write int string
  | Close int

text \<open>
  The field of \<^verbatim>\<open>pthread_internal_t\<close> (declared in \<^verbatim>\<open>pthread_internal.h\<close>, not among
  the sources) that the function reads: the kernel's id of the thread, a \<^verbatim>\<open>pid_t\<close>.
\<close>

record pthread_internal_t =
  kernel_id :: "32 word"

text \<open>
  The surroundings of one call: the handle of the calling thread, the memory behind
  each thread handle (a \<^verbatim>\<open>pthread_t\<close> is the address of the thread's
  \<^verbatim>\<open>pthread_internal_t\<close>), and the kernel's answer to each system call. The answer to a
  \<^verbatim>\<open>write\<close> may differ from one attempt to the next, so it also depends on the number of
  attempts made before.
\<close>

record env =
  pthread_self :: int
  thread_at :: "int \<Rightarrow> pthread_internal_t"
  on_prctl :: "string \<Rightarrow> unit sysres"
  on_open :: "string \<Rightarrow> int \<Rightarrow> nat sysres"
  on_write :: "nat \<Rightarrow> int \<Rightarrow> string \<Rightarrow> nat sysres"
  on_close :: "int \<Rightarrow> unit sysres"

text \<open>
  The state a call can change: the calling thread's \<^verbatim>\<open>errno\<close>, and the system calls
  issued so far, oldest first.
\<close>

record state =
  errno :: int
  trace :: "syscall list"

definition syscall_stub :: "syscall \<Rightarrow> 'a sysres \<Rightarrow> ('a \<Rightarrow> int) \<Rightarrow> state \<Rightarrow> int \<times> state" where
  "syscall_stub c answer val s =
     (let s' = s\<lparr>trace := trace s @ [c]\<rparr>
      in case answer of
           Ok v \<Rightarrow> (val v, s')
         | Err x \<Rightarrow> (- 1, s'\<lparr>errno := x\<rparr>))"

definition sys_prctl_set_name :: "env \<Rightarrow> string \<Rightarrow> state \<Rightarrow> int \<times> state" where
  "sys_prctl_set_name e name s =
     syscall_stub (Prctl_set_name name) (on_prctl e name) (\<lambda>_. 0) s"

definition sys_open :: "env \<Rightarrow> string \<Rightarrow> int \<Rightarrow> state \<Rightarrow> int \<times> state" where
  "sys_open e path flags s =
     syscall_stub (Open path flags) (on_open e path flags) int s"

definition sys_write :: "env \<Rightarrow> nat \<Rightarrow> int \<Rightarrow> string \<Rightarrow> state \<Rightarrow> int \<times> state" where
  "sys_write e i fd buf s =
     syscall_stub (Write fd buf) (on_write e i fd buf) int s"

definition sys_close :: "env \<Rightarrow> int \<Rightarrow> state \<Rightarrow> int \<times> state" where
  "sys_close e fd s =
     syscall_stub (Close fd) (on_close e fd) (\<lambda>_. 0) s"


section \<open>pthread_setname_np: the function\<close>

definition MAX_TASK_COMM_LEN :: nat where
  "MAX_TASK_COMM_LEN = 16"

text \<open>
  A \<^verbatim>\<open>const char*\<close> is \<open>None\<close> when it is \<^verbatim>\<open>NULL\<close>, and otherwise the bytes found at
  the address; the C string ends before the first NUL byte.
\<close>

definition strlen :: "string \<Rightarrow> nat" where
  "strlen str = length (takeWhile (\<lambda>c. c \<noteq> CHR 0x00) str)"

text \<open>\<^verbatim>\<open>%u\<close>: an unsigned number in decimal.\<close>

definition digit :: "nat \<Rightarrow> char" where
  "digit d = ''0123456789'' ! d"

fun fmt_u :: "nat \<Rightarrow> string" where
  "fmt_u n = (if n < 10 then [digit n] else fmt_u (n div 10) @ [digit (n mod 10)])"

declare fmt_u.simps [simp del]

text \<open>
  \<^verbatim>\<open>TASK_COMM_FMT\<close> with its one argument, and the size of the format's literal. The
  argument is the \<^verbatim>\<open>pid_t\<close> converted to \<^verbatim>\<open>unsigned int\<close>: the same 32 bits, read as
  unsigned.
\<close>

definition TASK_COMM_FMT :: "32 word \<Rightarrow> string" where
  "TASK_COMM_FMT u = ''/proc/self/task/'' @ fmt_u (unat u) @ ''/comm''"

definition sizeof_TASK_COMM_FMT :: nat where
  "sizeof_TASK_COMM_FMT = length ''/proc/self/task/%u/comm'' + 1"

text \<open>\<^verbatim>\<open>snprintf\<close> into a buffer of \<open>n\<close> bytes keeps at most \<open>n - 1\<close> characters.\<close>

definition snprintf :: "nat \<Rightarrow> string \<Rightarrow> string" where
  "snprintf n str = take (n - 1) str"

text \<open>
  Reading a decimal numeral back: the number that a string of the characters \<^verbatim>\<open>0\<close> to
  \<^verbatim>\<open>9\<close> denotes. It is not part of the program; it states what \<^verbatim>\<open>%u\<close> prints.
\<close>

definition digit_value :: "char \<Rightarrow> nat" where
  "digit_value c = of_char c - 48"

definition decimal_value :: "string \<Rightarrow> nat" where
  "decimal_value cs = foldl (\<lambda>a c. 10 * a + digit_value c) 0 cs"

text \<open>
  Modelled from the spec: \<^verbatim>\<open>TEMP_FAILURE_RETRY\<close>, a macro of \<^verbatim>\<open>unistd.h\<close>, which is not
  among the sources. The spec has the write retried automatically if it is interrupted
  by a signal: the call is issued again for as long as it returns \<open>-1\<close> with \<^verbatim>\<open>errno\<close>
  equal to \<^verbatim>\<open>EINTR\<close>, and the macro's value is the result of the last attempt. A write
  that is interrupted every time never comes back: the value \<open>None\<close>.
\<close>

partial_function (option)
  TEMP_FAILURE_RETRY_write :: "env \<Rightarrow> int \<Rightarrow> string \<Rightarrow> nat \<Rightarrow> state \<Rightarrow> (int \<times> state) option"
where
  "TEMP_FAILURE_RETRY_write e fd buf i s =
     (let rs = sys_write e i fd buf s
      in if fst rs = - 1 \<and> errno (snd rs) = EINTR
         then TEMP_FAILURE_RETRY_write e fd buf (Suc i) (snd rs)
         else Some rs)"

declare TEMP_FAILURE_RETRY_write.simps [code]

text \<open>
  Modelled from the spec: \<^verbatim>\<open>ErrnoRestorer\<close>, a class of \<^verbatim>\<open>private/ErrnoRestorer.h\<close>,
  which is not among the sources. Its constructor records the value of \<^verbatim>\<open>errno\<close>, and
  its destructor, which runs at every return of the enclosing function after the
  returned expression has been evaluated, stores that value back.
\<close>

definition ErrnoRestorer :: "state \<Rightarrow> int" where
  "ErrnoRestorer s = errno s"

definition ErrnoRestorer_destroy :: "int \<Rightarrow> state \<Rightarrow> state" where
  "ErrnoRestorer_destroy saved s = s\<lparr>errno := saved\<rparr>"

text \<open>Lines 58 to 60: changing our own name is an easy special case.\<close>

definition change_own_name :: "env \<Rightarrow> string \<Rightarrow> state \<Rightarrow> (int \<times> state) option" where
  "change_own_name e thread_name s =
     (let rs = sys_prctl_set_name e thread_name s
      in Some (if fst rs \<noteq> 0 then errno (snd rs) else 0, snd rs))"

text \<open>Lines 62 to 78: have to change another thread's name.\<close>

definition change_other_name ::
  "env \<Rightarrow> int \<Rightarrow> string \<Rightarrow> nat \<Rightarrow> state \<Rightarrow> (int \<times> state) option" where
  "change_other_name e thread thread_name thread_name_len s =
     (let t = thread_at e thread;
          comm_name = snprintf (sizeof_TASK_COMM_FMT + 8) (TASK_COMM_FMT (kernel_id t));
          fd_s = sys_open e comm_name O_RDWR s;
          fd = fst fd_s
      in if fd = - 1 then Some (errno (snd fd_s), snd fd_s)
         else
           (case TEMP_FAILURE_RETRY_write e fd (take thread_name_len thread_name) 0 (snd fd_s) of
              None \<Rightarrow> None
            | Some (n, s2) \<Rightarrow>
                (let s3 = snd (sys_close e fd s2)
                 in if n < 0 then Some (errno s3, s3)
                    else if nat n \<noteq> thread_name_len then Some (EIO, s3)
                    else Some (0, s3))))"

text \<open>The body of the function, between the constructor and the destructor.\<close>

definition pthread_setname_np_body ::
  "env \<Rightarrow> int \<Rightarrow> string option \<Rightarrow> state \<Rightarrow> (int \<times> state) option" where
  "pthread_setname_np_body e thread thread_name s =
     (if thread = 0 \<or> thread_name = None then Some (EINVAL, s)
      else
        (let thread_name_len = strlen (the thread_name)
         in if thread_name_len \<ge> MAX_TASK_COMM_LEN then Some (ERANGE, s)
            else if thread = pthread_self e then change_own_name e (the thread_name) s
            else change_other_name e thread (the thread_name) thread_name_len s))"

definition pthread_setname_np ::
  "env \<Rightarrow> int \<Rightarrow> string option \<Rightarrow> state \<Rightarrow> (int \<times> state) option" where
  "pthread_setname_np e thread thread_name s =
     (let errno_restorer = ErrnoRestorer s
      in map_option (\<lambda>(r, s'). (r, ErrnoRestorer_destroy errno_restorer s'))
           (pthread_setname_np_body e thread thread_name s))"


section \<open>An example environment\<close>

text \<open>
  A calling thread with handle 4096; every other handle is a thread with kernel id 4242;
  every system call succeeds, except that the first attempt of a write is interrupted by
  a signal.
\<close>

definition example_env :: env where
  "example_env =
     \<lparr>pthread_self = 4096,
      thread_at = (\<lambda>_. \<lparr>kernel_id = 4242\<rparr>),
      on_prctl = (\<lambda>_. Ok ()),
      on_open = (\<lambda>_ _. Ok 3),
      on_write = (\<lambda>i _ buf. if i = 0 then Err EINTR else Ok (length buf)),
      on_close = (\<lambda>_. Ok ())\<rparr>"

definition example_state :: state where
  "example_state = \<lparr>errno = 0, trace = []\<rparr>"


section \<open>Lemmas\<close>

subsection \<open>The I/O priority macros\<close>

lemma small_word_bits:
  fixes w :: "32 word"
  assumes "w < 2 ^ k"
  shows "take_bit k w = w"
  using less_mask_eq [OF assms] by (simp add: take_bit_eq_mask)

lemma ioprio_mask: "IOPRIO_PRIO_MASK = mask 13"
  by (simp add: IOPRIO_PRIO_MASK_def IOPRIO_CLASS_SHIFT_def mask_eq_decr_exp)

lemma ioprio_class_value:
  fixes c d :: "32 word"
  assumes c: "c < 2 ^ 18" and d: "d < 2 ^ 13"
  shows "IOPRIO_PRIO_CLASS (IOPRIO_PRIO_VALUE c d) = c"
proof -
  have c': "take_bit 18 c = c" and d': "take_bit 13 d = d"
    using c d by (simp_all add: small_word_bits)
  have "drop_bit 13 (push_bit 13 (take_bit 18 c) OR take_bit 13 d) = take_bit 18 c"
    by (rule bit_word_eqI) (auto simp add: bit_simps)
  then show ?thesis
    by (simp add: IOPRIO_PRIO_CLASS_def IOPRIO_PRIO_VALUE_def IOPRIO_CLASS_SHIFT_def c' d')
qed

lemma ioprio_data_value:
  fixes c d :: "32 word"
  assumes d: "d < 2 ^ 13"
  shows "IOPRIO_PRIO_DATA (IOPRIO_PRIO_VALUE c d) = d"
proof -
  have d': "take_bit 13 d = d"
    using d by (simp add: small_word_bits)
  have "(push_bit 13 c OR take_bit 13 d) AND mask 13 = take_bit 13 d"
    by (rule bit_word_eqI) (auto simp add: bit_simps)
  then show ?thesis
    by (simp add: IOPRIO_PRIO_DATA_def IOPRIO_PRIO_VALUE_def IOPRIO_CLASS_SHIFT_def
        ioprio_mask d')
qed

subsection \<open>Formatting the path\<close>

lemma fmt_u_length: "0 < k \<Longrightarrow> n < 10 ^ k \<Longrightarrow> length (fmt_u n) \<le> k"
proof (induction k arbitrary: n)
  case 0
  then show ?case by simp
next
  case (Suc k)
  show ?case
  proof (cases "n < 10")
    case True
    then show ?thesis by (simp add: fmt_u.simps [of n])
  next
    case False
    then have k: "0 < k" using Suc.prems by (cases k) auto
    have "n div 10 < 10 ^ k" using Suc.prems by (simp add: less_mult_imp_div_less mult.commute)
    from Suc.IH [OF k this] False show ?thesis by (simp add: fmt_u.simps [of n])
  qed
qed

lemma comm_name_fits:
  "snprintf (sizeof_TASK_COMM_FMT + 8) (TASK_COMM_FMT u) = TASK_COMM_FMT u"
proof -
  have "unat u < 2 ^ 32" using unsigned_less [of u] by simp
  then have "unat u < 10 ^ 10" by simp
  then have "length (fmt_u (unat u)) \<le> 10" by (intro fmt_u_length) simp_all
  then show ?thesis
    by (simp add: snprintf_def sizeof_TASK_COMM_FMT_def TASK_COMM_FMT_def)
qed

text \<open>What \<^verbatim>\<open>%u\<close> prints is the decimal numeral of the number, without leading zeros.\<close>

lemma digit_value_digit: "d < 10 \<Longrightarrow> digit_value (digit d) = d"
proof -
  assume "d < 10"
  then have "d = 0 \<or> d = 1 \<or> d = 2 \<or> d = 3 \<or> d = 4 \<or> d = 5 \<or> d = 6 \<or> d = 7 \<or> d = 8 \<or> d = 9"
    by arith
  then show ?thesis
    by (elim disjE) (simp_all add: digit_value_def digit_def)
qed

lemma digit_in_digits: "d < 10 \<Longrightarrow> digit d \<in> set ''0123456789''"
proof -
  assume "d < 10"
  then have "d = 0 \<or> d = 1 \<or> d = 2 \<or> d = 3 \<or> d = 4 \<or> d = 5 \<or> d = 6 \<or> d = 7 \<or> d = 8 \<or> d = 9"
    by arith
  then show ?thesis
    by (elim disjE) (simp_all add: digit_def)
qed

lemma digit_zero: "d < 10 \<Longrightarrow> digit d = CHR ''0'' \<Longrightarrow> d = 0"
proof -
  assume "d < 10" and z: "digit d = CHR ''0''"
  then have "d = 0 \<or> d = 1 \<or> d = 2 \<or> d = 3 \<or> d = 4 \<or> d = 5 \<or> d = 6 \<or> d = 7 \<or> d = 8 \<or> d = 9"
    by arith
  then show ?thesis using z
    by (elim disjE) (simp_all add: digit_def)
qed

lemma decimal_value_snoc:
  "decimal_value (cs @ [c]) = 10 * decimal_value cs + digit_value c"
  by (simp add: decimal_value_def)

lemma decimal_value_fmt_u: "decimal_value (fmt_u n) = n"
proof (induction n rule: fmt_u.induct)
  case (1 n)
  show ?case
  proof (cases "n < 10")
    case True
    then show ?thesis
      by (simp add: fmt_u.simps [of n] decimal_value_def digit_value_digit)
  next
    case False
    with "1.IH" show ?thesis
      by (simp add: fmt_u.simps [of n] decimal_value_snoc digit_value_digit)
  qed
qed

lemma fmt_u_digits: "c \<in> set (fmt_u n) \<Longrightarrow> c \<in> set ''0123456789''"
proof (induction n rule: fmt_u.induct)
  case (1 n)
  show ?case
  proof (cases "n < 10")
    case True
    with "1.prems" digit_in_digits [of n] show ?thesis
      by (simp add: fmt_u.simps [of n])
  next
    case False
    with "1.prems" "1.IH" digit_in_digits [of "n mod 10"] show ?thesis
      by (auto simp: fmt_u.simps [of n])
  qed
qed

lemma fmt_u_not_empty: "fmt_u n \<noteq> []"
  by (simp add: fmt_u.simps [of n])

lemma fmt_u_no_leading_zero: "fmt_u n = ''0'' \<or> hd (fmt_u n) \<noteq> CHR ''0''"
proof (induction n rule: fmt_u.induct)
  case (1 n)
  show ?case
  proof (cases "n < 10")
    case True
    then show ?thesis
      using digit_zero [of n] by (auto simp: fmt_u.simps [of n] digit_def)
  next
    case False
    then have "n div 10 \<noteq> 0" by simp
    then have "fmt_u (n div 10) \<noteq> ''0''"
      using decimal_value_fmt_u [of "n div 10"]
      by (auto simp: decimal_value_def digit_value_def)
    with "1.IH" False have "hd (fmt_u (n div 10)) \<noteq> CHR ''0''" by simp
    with False show ?thesis
      by (simp add: fmt_u.simps [of n] fmt_u_not_empty)
  qed
qed

subsection \<open>The name's bytes\<close>

lemma take_strlen: "take (strlen name) name = takeWhile (\<lambda>c. c \<noteq> CHR 0x00) name"
  by (simp add: strlen_def takeWhile_eq_take [symmetric])

lemma length_take_strlen: "length (take (strlen name) name) = strlen name"
  by (simp add: strlen_def length_takeWhile_le)

lemma no_NUL_take_strlen: "CHR 0x00 \<notin> set (take (strlen name) name)"
  by (auto simp: take_strlen dest: set_takeWhileD)

subsection \<open>The retried write\<close>

lemma retry_settles:
  assumes "\<forall>j<k. on_write e (i + j) fd buf = Err EINTR"
    and "on_write e (i + k) fd buf \<noteq> Err EINTR"
  shows "TEMP_FAILURE_RETRY_write e fd buf i s =
    Some (sys_write e (i + k) fd buf
      (s\<lparr>trace := trace s @ replicate k (Write fd buf),
         errno := if k = 0 then errno s else EINTR\<rparr>))"
  using assms
proof (induction k arbitrary: i s)
  case 0
  then show ?case
    by (subst TEMP_FAILURE_RETRY_write.simps)
      (auto simp: sys_write_def syscall_stub_def Let_def split: sysres.splits)
next
  case (Suc k)
  have first: "on_write e i fd buf = Err EINTR" using Suc.prems(1) [rule_format, of 0] by simp
  have rest: "\<forall>j<k. on_write e (Suc i + j) fd buf = Err EINTR"
    using Suc.prems(1) by (auto dest: spec [of _ "Suc _"])
  have last: "on_write e (Suc i + k) fd buf \<noteq> Err EINTR" using Suc.prems(2) by simp
  show ?case
    apply (subst TEMP_FAILURE_RETRY_write.simps)
    apply (simp add: sys_write_def syscall_stub_def Let_def first)
    apply (subst Suc.IH [OF rest last])
    apply (simp add: sys_write_def syscall_stub_def Let_def replicate_append_same
        split: sysres.splits)
    done
qed

lemma retry_returns_settles:
  "TEMP_FAILURE_RETRY_write e fd buf i s = Some rs \<Longrightarrow>
   \<exists>k. (\<forall>j<k. on_write e (i + j) fd buf = Err EINTR) \<and> on_write e (i + k) fd buf \<noteq> Err EINTR"
proof (induction e fd buf i s rs
    rule: TEMP_FAILURE_RETRY_write.raw_induct [rotated 1, consumes 1, case_names step])
  case (step f e fd buf i s rs)
  show ?case
  proof (cases "on_write e i fd buf = Err EINTR")
    case True
    then have "f e fd buf (Suc i) (snd (sys_write e i fd buf s)) = Some rs"
      using step.hyps by (simp add: sys_write_def syscall_stub_def Let_def)
    then obtain k where
      kk: "(\<forall>j<k. on_write e (Suc i + j) fd buf = Err EINTR) \<and>
        on_write e (Suc i + k) fd buf \<noteq> Err EINTR"
      using step.IH by blast
    have "\<forall>j<Suc k. on_write e (i + j) fd buf = Err EINTR"
    proof (intro allI impI)
      fix j assume j: "j < Suc k"
      show "on_write e (i + j) fd buf = Err EINTR"
      proof (cases j)
        case 0
        then show ?thesis using True by simp
      next
        case (Suc j')
        then have "j' < k" using j by simp
        then have "on_write e (Suc i + j') fd buf = Err EINTR" using kk by simp
        then show ?thesis using Suc by simp
      qed
    qed
    moreover have "on_write e (i + Suc k) fd buf \<noteq> Err EINTR" using kk by simp
    ultimately show ?thesis by (intro exI [of _ "Suc k"] conjI)
  next
    case False
    then show ?thesis by (intro exI [of _ 0]) simp
  qed
qed

subsection \<open>The two ways of renaming\<close>

lemma change_own_name_eq:
  "change_own_name e name s =
     Some (case on_prctl e name of Ok _ \<Rightarrow> 0 | Err x \<Rightarrow> x,
           s\<lparr>trace := trace s @ [Prctl_set_name name],
             errno := (case on_prctl e name of Ok _ \<Rightarrow> errno s | Err x \<Rightarrow> x)\<rparr>)"
  by (simp add: change_own_name_def sys_prctl_set_name_def syscall_stub_def Let_def
      split: sysres.splits)

lemma change_other_name_unopenable:
  assumes "on_open e (TASK_COMM_FMT (kernel_id (thread_at e thread))) O_RDWR = Err x"
  shows "change_other_name e thread name len s =
     Some (x, s\<lparr>trace := trace s @ [Open (TASK_COMM_FMT (kernel_id (thread_at e thread))) O_RDWR],
               errno := x\<rparr>)"
  using assms
  by (simp add: change_other_name_def comm_name_fits sys_open_def syscall_stub_def Let_def)

lemma change_other_name_settles:
  assumes op: "on_open e (TASK_COMM_FMT (kernel_id (thread_at e thread))) O_RDWR = Ok fd"
    and intr: "\<forall>i<k. on_write e i (int fd) (take len name) = Err EINTR"
    and last: "on_write e k (int fd) (take len name) \<noteq> Err EINTR"
  shows "\<exists>s'. change_other_name e thread name len s =
       Some (case on_write e k (int fd) (take len name) of
               Err x \<Rightarrow> (case on_close e (int fd) of Ok _ \<Rightarrow> x | Err y \<Rightarrow> y)
             | Ok n \<Rightarrow> if n \<noteq> len then EIO else 0, s') \<and>
     trace s' = trace s @ [Open (TASK_COMM_FMT (kernel_id (thread_at e thread))) O_RDWR] @
       replicate (Suc k) (Write (int fd) (take len name)) @ [Close (int fd)]"
proof -
  have r: "TEMP_FAILURE_RETRY_write e (int fd) (take len name) 0 s0 =
    Some (sys_write e k (int fd) (take len name)
      (s0\<lparr>trace := trace s0 @ replicate k (Write (int fd) (take len name)),
         errno := if k = 0 then errno s0 else EINTR\<rparr>))" for s0
    using retry_settles [of k e 0 "int fd" "take len name" s0] intr last by simp
  show ?thesis
    by (simp add: change_other_name_def comm_name_fits sys_open_def op r sys_write_def
        sys_close_def syscall_stub_def Let_def replicate_append_same
        split: sysres.splits)
qed

lemma change_other_name_returns:
  assumes "change_other_name e thread name len s = Some rs"
  shows "(\<exists>x. on_open e (TASK_COMM_FMT (kernel_id (thread_at e thread))) O_RDWR = Err x) \<or>
    (\<exists>fd k. on_open e (TASK_COMM_FMT (kernel_id (thread_at e thread))) O_RDWR = Ok fd \<and>
       (\<forall>i<k. on_write e i (int fd) (take len name) = Err EINTR) \<and>
       on_write e k (int fd) (take len name) \<noteq> Err EINTR)"
proof (cases "on_open e (TASK_COMM_FMT (kernel_id (thread_at e thread))) O_RDWR")
  case (Err x)
  then show ?thesis by simp
next
  case (Ok fd)
  with assms obtain ns where
    "TEMP_FAILURE_RETRY_write e (int fd) (take len name) 0
       (s\<lparr>trace := trace s @ [Open (TASK_COMM_FMT (kernel_id (thread_at e thread))) O_RDWR]\<rparr>) = Some ns"
    by (auto simp: change_other_name_def comm_name_fits sys_open_def syscall_stub_def Let_def
        split: option.splits)
  from retry_returns_settles [OF this] Ok show ?thesis by auto
qed

subsection \<open>The whole function\<close>

lemma restore_same: "ErrnoRestorer_destroy (ErrnoRestorer s) s = s"
  by (simp add: ErrnoRestorer_destroy_def ErrnoRestorer_def)

lemma setname_invalid:
  "thread = 0 \<or> thread_name = None \<Longrightarrow>
   pthread_setname_np e thread thread_name s = Some (EINVAL, s)"
  by (auto simp: pthread_setname_np_def pthread_setname_np_body_def restore_same)

lemma setname_too_long:
  "thread \<noteq> 0 \<Longrightarrow> 16 \<le> strlen name \<Longrightarrow>
   pthread_setname_np e thread (Some name) s = Some (ERANGE, s)"
  by (simp add: pthread_setname_np_def pthread_setname_np_body_def restore_same
      MAX_TASK_COMM_LEN_def)

lemma setname_own:
  "thread \<noteq> 0 \<Longrightarrow> strlen name < 16 \<Longrightarrow> thread = pthread_self e \<Longrightarrow>
   pthread_setname_np e thread (Some name) s =
     Some (case on_prctl e name of Ok _ \<Rightarrow> 0 | Err x \<Rightarrow> x,
           s\<lparr>trace := trace s @ [Prctl_set_name name]\<rparr>)"
  by (simp add: pthread_setname_np_def pthread_setname_np_body_def change_own_name_eq
      MAX_TASK_COMM_LEN_def ErrnoRestorer_destroy_def ErrnoRestorer_def)

lemma setname_other:
  "thread \<noteq> 0 \<Longrightarrow> strlen name < 16 \<Longrightarrow> thread \<noteq> pthread_self e \<Longrightarrow>
   pthread_setname_np e thread (Some name) s =
     map_option (\<lambda>(r, s'). (r, s'\<lparr>errno := errno s\<rparr>))
       (change_other_name e thread name (strlen name) s)"
  by (simp add: pthread_setname_np_def pthread_setname_np_body_def
      MAX_TASK_COMM_LEN_def ErrnoRestorer_destroy_def ErrnoRestorer_def)

lemma setname_errno:
  "pthread_setname_np e thread thread_name s = Some (r, s') \<Longrightarrow> errno s' = errno s"
  by (auto simp: pthread_setname_np_def ErrnoRestorer_destroy_def ErrnoRestorer_def)

subsection \<open>What the function leaves in the trace\<close>

lemma change_own_name_trace:
  "change_own_name e name s = Some (r, s') \<Longrightarrow> trace s' = trace s @ [Prctl_set_name name]"
  by (auto simp: change_own_name_eq)

lemma change_other_name_trace:
  assumes "change_other_name e thread name len s = Some (r, s')"
  shows "trace s' = trace s @ [Open (TASK_COMM_FMT (kernel_id (thread_at e thread))) O_RDWR] \<or>
    (\<exists>fd k. trace s' = trace s @ [Open (TASK_COMM_FMT (kernel_id (thread_at e thread))) O_RDWR] @
       replicate (Suc k) (Write (int fd) (take len name)) @ [Close (int fd)])"
proof -
  from change_other_name_returns [OF assms] show ?thesis
  proof (elim disjE exE conjE)
    fix x assume "on_open e (TASK_COMM_FMT (kernel_id (thread_at e thread))) O_RDWR = Err x"
    from change_other_name_unopenable [OF this, of name len s] assms
    show ?thesis by simp
  next
    fix fd k
    assume "on_open e (TASK_COMM_FMT (kernel_id (thread_at e thread))) O_RDWR = Ok fd"
      "\<forall>i<k. on_write e i (int fd) (take len name) = Err EINTR"
      "on_write e k (int fd) (take len name) \<noteq> Err EINTR"
    from change_other_name_settles [OF this, of s] assms
    show ?thesis by auto
  qed
qed

lemma setname_other_unopenable:
  assumes "thread \<noteq> 0" "strlen name < 16" "thread \<noteq> pthread_self e"
    and "on_open e (TASK_COMM_FMT (kernel_id (thread_at e thread))) O_RDWR = Err x"
  shows "pthread_setname_np e thread (Some name) s =
     Some (x, s\<lparr>trace := trace s @ [Open (TASK_COMM_FMT (kernel_id (thread_at e thread))) O_RDWR]\<rparr>)"
  using assms by (simp add: setname_other change_other_name_unopenable)

lemma setname_other_settles:
  assumes valid: "thread \<noteq> 0" "strlen name < 16" "thread \<noteq> pthread_self e"
    and op: "on_open e (TASK_COMM_FMT (kernel_id (thread_at e thread))) O_RDWR = Ok fd"
    and intr: "\<forall>i<k. on_write e i (int fd) (take (strlen name) name) = Err EINTR"
    and last: "on_write e k (int fd) (take (strlen name) name) \<noteq> Err EINTR"
  shows "\<exists>s'. pthread_setname_np e thread (Some name) s =
       Some (case on_write e k (int fd) (take (strlen name) name) of
               Err x \<Rightarrow> (case on_close e (int fd) of Ok _ \<Rightarrow> x | Err y \<Rightarrow> y)
             | Ok n \<Rightarrow> if n \<noteq> strlen name then EIO else 0, s') \<and>
     trace s' = trace s @ [Open (TASK_COMM_FMT (kernel_id (thread_at e thread))) O_RDWR] @
       replicate (Suc k) (Write (int fd) (take (strlen name) name)) @ [Close (int fd)] \<and>
     errno s' = errno s"
proof -
  from change_other_name_settles [OF op intr last, of s] obtain s1 where
    s1: "change_other_name e thread name (strlen name) s =
       Some (case on_write e k (int fd) (take (strlen name) name) of
               Err x \<Rightarrow> (case on_close e (int fd) of Ok _ \<Rightarrow> x | Err y \<Rightarrow> y)
             | Ok n \<Rightarrow> if n \<noteq> strlen name then EIO else 0, s1)"
    and t1: "trace s1 = trace s @ [Open (TASK_COMM_FMT (kernel_id (thread_at e thread))) O_RDWR] @
       replicate (Suc k) (Write (int fd) (take (strlen name) name)) @ [Close (int fd)]"
    by blast
  show ?thesis
    by (rule exI [of _ "s1\<lparr>errno := errno s\<rparr>"]) (simp add: setname_other [OF valid] s1 t1)
qed

lemma setname_returns_trace:
  assumes "thread \<noteq> 0" "strlen name < 16"
    and "pthread_setname_np e thread (Some name) s = Some (r, s')"
  shows "trace s' \<noteq> trace s"
proof (cases "thread = pthread_self e")
  case True
  from setname_own [OF assms(1,2) True, of s] assms(3) show ?thesis by auto
next
  case False
  from assms(3) obtain s1 where s1: "change_other_name e thread name (strlen name) s = Some (r, s1)"
    and tr: "trace s' = trace s1"
    unfolding setname_other [OF assms(1,2) False] by auto
  from change_other_name_trace [OF s1] tr show ?thesis by auto
qed

lemma setname_interrupted_forever:
  assumes "thread \<noteq> 0" "strlen name < 16" "thread \<noteq> pthread_self e"
    and "on_open e (TASK_COMM_FMT (kernel_id (thread_at e thread))) O_RDWR = Ok fd"
    and "\<forall>i. on_write e i (int fd) (take (strlen name) name) = Err EINTR"
  shows "pthread_setname_np e thread (Some name) s = None"
proof (rule ccontr)
  assume "pthread_setname_np e thread (Some name) s \<noteq> None"
  then obtain rs where "change_other_name e thread name (strlen name) s = Some rs"
    unfolding setname_other [OF assms(1-3)] by auto
  from change_other_name_returns [OF this] assms(4,5) show False by auto
qed

subsection \<open>Runs in the example environment\<close>

lemma example_path: "TASK_COMM_FMT 4242 = ''/proc/self/task/4242/comm''"
  by (simp add: TASK_COMM_FMT_def fmt_u.simps digit_def)

lemma example_run:
  "pthread_setname_np example_env 7 (Some ''worker'') example_state =
     Some (0, \<lparr>errno = 0, trace = [Open ''/proc/self/task/4242/comm'' O_RDWR,
        Write 3 ''worker'', Write 3 ''worker'', Close 3]\<rparr>)"
  by (simp add: setname_other strlen_def example_env_def example_state_def
      change_other_name_def comm_name_fits example_path sys_open_def sys_write_def
      sys_close_def syscall_stub_def TEMP_FAILURE_RETRY_write.simps EINTR_def)

lemma example_run_unopenable:
  "pthread_setname_np (example_env\<lparr>on_open := \<lambda>_ _. Err 13\<rparr>) 7 (Some ''worker'')
     \<lparr>errno = 11, trace = []\<rparr> =
     Some (13, \<lparr>errno = 11, trace = [Open ''/proc/self/task/4242/comm'' O_RDWR]\<rparr>)"
  by (simp add: setname_other strlen_def example_env_def
      change_other_name_def comm_name_fits example_path sys_open_def syscall_stub_def)


section \<open>The claims\<close>

text \<open>
  C1. When the thread handle and the name are not null and the name has 16 bytes or more
  before its terminator, the function returns \<^verbatim>\<open>ERANGE\<close> and the state is the one it
  started from: no system call is issued. A name of fewer than 16 bytes passes the
  length check: the function goes on to rename, through \<^verbatim>\<open>prctl\<close> for the calling
  thread and through the comm file for any other, and whenever it returns it has issued
  a system call.
\<close>

theorem setname_length_check:
  "thread \<noteq> 0 \<Longrightarrow>
   (16 \<le> strlen name \<longrightarrow>
      pthread_setname_np e thread (Some name) s = Some (ERANGE, s)) \<and>
   (strlen name < 16 \<longrightarrow>
      pthread_setname_np e thread (Some name) s =
        map_option (\<lambda>(r, s'). (r, s'\<lparr>errno := errno s\<rparr>))
          (if thread = pthread_self e then change_own_name e name s
           else change_other_name e thread name (strlen name) s) \<and>
      (\<forall>r s'. pthread_setname_np e thread (Some name) s = Some (r, s') \<longrightarrow>
         trace s' \<noteq> trace s))"
proof (intro conjI impI allI)
  assume "thread \<noteq> 0" "16 \<le> strlen name"
  then show "pthread_setname_np e thread (Some name) s = Some (ERANGE, s)"
    by (rule setname_too_long)
next
  assume h: "thread \<noteq> 0" "strlen name < 16"
  then show "pthread_setname_np e thread (Some name) s =
        map_option (\<lambda>(r, s'). (r, s'\<lparr>errno := errno s\<rparr>))
          (if thread = pthread_self e then change_own_name e name s
           else change_other_name e thread name (strlen name) s)"
    by (simp add: pthread_setname_np_def pthread_setname_np_body_def
      MAX_TASK_COMM_LEN_def ErrnoRestorer_destroy_def ErrnoRestorer_def)
next
  fix r s'
  assume h: "thread \<noteq> 0" "strlen name < 16"
    and ret: "pthread_setname_np e thread (Some name) s = Some (r, s')"
  show "trace s' \<noteq> trace s"
  proof (cases "thread = pthread_self e")
    case True
    from setname_own [OF h True, of s] ret show ?thesis by auto
  next
    case False
    from ret obtain s1 where s1: "change_other_name e thread name (strlen name) s = Some (r, s1)"
      and tr: "trace s' = trace s1"
      unfolding setname_other [OF h False] by auto
    from change_other_name_trace [OF s1] tr show ?thesis by auto
  qed
qed

theorem setname_length_check_witness:
  "(7 :: int) \<noteq> 0 \<and> 16 \<le> strlen ''0123456789abcdef'' \<and> strlen ''0123456789abcde'' < 16 \<and>
   pthread_setname_np example_env 7 (Some ''0123456789abcdef'') example_state =
     Some (ERANGE, example_state) \<and>
   pthread_setname_np example_env 7 (Some ''0123456789abcde'') example_state \<noteq>
     Some (ERANGE, example_state)"
proof -
  have t: "(7 :: int) \<noteq> 0" by simp
  have l16: "16 \<le> strlen ''0123456789abcdef''" by (simp add: strlen_def)
  have l15: "strlen ''0123456789abcde'' < 16" by (simp add: strlen_def)
  show ?thesis
    using setname_length_check [OF t, of "''0123456789abcdef''" example_env example_state]
      setname_length_check [OF t, of "''0123456789abcde''" example_env example_state]
      l16 l15
    by auto
qed

text \<open>
  C2. When the thread handle is 0 or the name is \<^verbatim>\<open>NULL\<close>, the function returns
  \<^verbatim>\<open>EINVAL\<close> and leaves the state as it was; the state holds the trace of system
  calls, so none is issued.
\<close>

theorem setname_invalid_arguments:
  "thread = 0 \<or> thread_name = None \<Longrightarrow>
   pthread_setname_np e thread thread_name s = Some (EINVAL, s)"
  by (rule setname_invalid)

theorem setname_invalid_arguments_witness:
  "pthread_setname_np example_env 0 (Some ''worker'') example_state = Some (EINVAL, example_state) \<and>
   pthread_setname_np example_env 4096 None example_state = Some (EINVAL, example_state)"
  using setname_invalid_arguments [of 0 "Some ''worker''" example_env example_state]
    setname_invalid_arguments [of 4096 None example_env example_state]
  by simp

text \<open>
  C3. When the arguments pass both checks and the handle is the calling thread's own, the
  function issues exactly one system call, \<^verbatim>\<open>prctl(PR_SET_NAME, name)\<close>, opens no file,
  and returns 0 if the kernel accepts the call and the error number the kernel answers
  otherwise.
\<close>

theorem setname_own_thread:
  "thread \<noteq> 0 \<Longrightarrow> strlen name < 16 \<Longrightarrow> thread = pthread_self e \<Longrightarrow>
   pthread_setname_np e thread (Some name) s =
     Some (case on_prctl e name of Ok _ \<Rightarrow> 0 | Err x \<Rightarrow> x,
           s\<lparr>trace := trace s @ [Prctl_set_name name]\<rparr>)"
  by (rule setname_own)

theorem setname_own_thread_witness:
  "(4096 :: int) \<noteq> 0 \<and> strlen ''worker'' < 16 \<and> 4096 = pthread_self example_env \<and>
   pthread_setname_np example_env 4096 (Some ''worker'') example_state =
     Some (0, \<lparr>errno = 0, trace = [Prctl_set_name ''worker'']\<rparr>) \<and>
   pthread_setname_np (example_env\<lparr>on_prctl := \<lambda>_. Err 14\<rparr>) 4096 (Some ''worker'') example_state =
     Some (14, \<lparr>errno = 0, trace = [Prctl_set_name ''worker'']\<rparr>)"
proof -
  have t: "(4096 :: int) \<noteq> 0" by simp
  have l: "strlen ''worker'' < 16" by (simp add: strlen_def)
  have s1: "4096 = pthread_self example_env"
    and s2: "4096 = pthread_self (example_env\<lparr>on_prctl := \<lambda>_. Err 14\<rparr>)"
    by (simp_all add: example_env_def)
  show ?thesis
    using setname_own_thread [OF t l s1, of example_state]
      setname_own_thread [OF t l s2, of example_state] l
    by (simp add: example_env_def example_state_def)
qed

text \<open>
  C4. On the way through the comm file of another thread, when the write, once it is no
  longer interrupted, reports a number of bytes that is not the length of the name, the
  function returns \<^verbatim>\<open>EIO\<close>.
\<close>

theorem setname_short_write:
  assumes "thread \<noteq> 0" "strlen name < 16" "thread \<noteq> pthread_self e"
    and "on_open e (TASK_COMM_FMT (kernel_id (thread_at e thread))) O_RDWR = Ok fd"
    and "\<forall>i<k. on_write e i (int fd) (take (strlen name) name) = Err EINTR"
    and "on_write e k (int fd) (take (strlen name) name) = Ok n"
    and "n \<noteq> strlen name"
  shows "\<exists>s'. pthread_setname_np e thread (Some name) s = Some (EIO, s')"
proof -
  have "on_write e k (int fd) (take (strlen name) name) \<noteq> Err EINTR"
    using assms(6) by simp
  from setname_other_settles [OF assms(1-5) this, of s] assms(6,7)
  show ?thesis by auto
qed

theorem setname_short_write_witness:
  "(7 :: int) \<noteq> 0 \<and> strlen ''worker'' < 16 \<and> 7 \<noteq> pthread_self example_env \<and>
   on_open (example_env\<lparr>on_write := \<lambda>i _ _. if i = 0 then Err EINTR else Ok 2\<rparr>)
     (TASK_COMM_FMT (kernel_id (thread_at example_env 7))) O_RDWR = Ok 3 \<and>
   (\<exists>s'. pthread_setname_np
      (example_env\<lparr>on_write := \<lambda>i _ _. if i = 0 then Err EINTR else Ok 2\<rparr>)
      7 (Some ''worker'') example_state = Some (EIO, s'))"
proof -
  let ?e = "example_env\<lparr>on_write := \<lambda>i _ _. if i = 0 then Err EINTR else Ok 2\<rparr>"
  have t: "(7 :: int) \<noteq> 0" by simp
  have l: "strlen ''worker'' < 16" by (simp add: strlen_def)
  have o: "7 \<noteq> pthread_self ?e" by (simp add: example_env_def)
  have op: "on_open ?e (TASK_COMM_FMT (kernel_id (thread_at ?e 7))) O_RDWR = Ok 3"
    by (simp add: example_env_def)
  have intr: "\<forall>i<1. on_write ?e i (int 3) (take (strlen ''worker'') ''worker'') = Err EINTR"
    by simp
  have w: "on_write ?e 1 (int 3) (take (strlen ''worker'') ''worker'') = Ok 2"
    by simp
  have n: "2 \<noteq> strlen ''worker''" by (simp add: strlen_def)
  from setname_short_write [OF t l o op intr w n, of example_state] t l
  show ?thesis by (simp add: example_env_def)
qed



text \<open>
  C6. On the way through the comm file, a write that fails with \<^verbatim>\<open>EINTR\<close> is issued
  again, and an attempt with any other outcome, a failure with another error number
  included, is the last one: after \<open>k\<close> interrupted attempts the trace holds exactly
  \<open>k + 1\<close> writes, between one \<^verbatim>\<open>open\<close> and one \<^verbatim>\<open>close\<close>. No other call is repeated:
  the retry on interruption is the only retry there is.
\<close>

theorem setname_write_retry:
  assumes "thread \<noteq> 0" "strlen name < 16" "thread \<noteq> pthread_self e"
    and "on_open e (TASK_COMM_FMT (kernel_id (thread_at e thread))) O_RDWR = Ok fd"
    and "\<forall>i<k. on_write e i (int fd) (take (strlen name) name) = Err EINTR"
    and "on_write e k (int fd) (take (strlen name) name) \<noteq> Err EINTR"
  shows "\<exists>r s'. pthread_setname_np e thread (Some name) s = Some (r, s') \<and>
     trace s' = trace s @ [Open (TASK_COMM_FMT (kernel_id (thread_at e thread))) O_RDWR] @
       replicate (Suc k) (Write (int fd) (take (strlen name) name)) @ [Close (int fd)]"
  using setname_other_settles [OF assms, of s] by blast

theorem setname_write_retry_witness:
  "(7 :: int) \<noteq> 0 \<and> strlen ''worker'' < 16 \<and> 7 \<noteq> pthread_self example_env \<and>
   on_write example_env 0 3 ''worker'' = Err EINTR \<and>
   on_write example_env 1 3 ''worker'' \<noteq> Err EINTR \<and>
   (\<exists>r s'. pthread_setname_np example_env 7 (Some ''worker'') example_state = Some (r, s') \<and>
      trace s' = [Open ''/proc/self/task/4242/comm'' O_RDWR,
        Write 3 ''worker'', Write 3 ''worker'', Close 3]) \<and>
   on_write (example_env\<lparr>on_write := \<lambda>_ _ _. Err 9\<rparr>) 0 3 ''worker'' \<noteq> Err EINTR \<and>
   (\<exists>r s'. pthread_setname_np (example_env\<lparr>on_write := \<lambda>_ _ _. Err 9\<rparr>) 7
        (Some ''worker'') example_state = Some (r, s') \<and>
      trace s' = [Open ''/proc/self/task/4242/comm'' O_RDWR, Write 3 ''worker'', Close 3])"
proof -
  let ?g = "example_env\<lparr>on_write := \<lambda>_ _ _. Err 9\<rparr>"
  have t: "(7 :: int) \<noteq> 0" by simp
  have l: "strlen ''worker'' < 16" by (simp add: strlen_def)
  have o: "7 \<noteq> pthread_self example_env" and o': "7 \<noteq> pthread_self ?g"
    by (simp_all add: example_env_def)
  have op: "on_open example_env (TASK_COMM_FMT (kernel_id (thread_at example_env 7))) O_RDWR = Ok 3"
    and op': "on_open ?g (TASK_COMM_FMT (kernel_id (thread_at ?g 7))) O_RDWR = Ok 3"
    by (simp_all add: example_env_def)
  have intr: "\<forall>i<1. on_write example_env i (int 3) (take (strlen ''worker'') ''worker'') = Err EINTR"
    by (simp add: example_env_def)
  have w: "on_write example_env 1 (int 3) (take (strlen ''worker'') ''worker'') \<noteq> Err EINTR"
    by (simp add: example_env_def)
  have intr': "\<forall>i<0. on_write ?g i (int 3) (take (strlen ''worker'') ''worker'') = Err EINTR"
    by simp
  have w': "on_write ?g 0 (int 3) (take (strlen ''worker'') ''worker'') \<noteq> Err EINTR"
    by (simp add: EINTR_def)
  have p: "TASK_COMM_FMT (kernel_id (thread_at example_env 7)) = ''/proc/self/task/4242/comm''"
    and p': "TASK_COMM_FMT (kernel_id (thread_at ?g 7)) = ''/proc/self/task/4242/comm''"
    by (simp_all add: example_env_def example_path)
  have b: "take (strlen ''worker'') ''worker'' = ''worker''" by (simp add: strlen_def)
  have tr: "trace example_state = []" by (simp add: example_state_def)
  have one: "\<exists>r s'. pthread_setname_np example_env 7 (Some ''worker'') example_state = Some (r, s') \<and>
      trace s' = [Open ''/proc/self/task/4242/comm'' O_RDWR,
        Write 3 ''worker'', Write 3 ''worker'', Close 3]"
    using setname_write_retry [OF t l o op intr w, of example_state]
    unfolding p b tr by (simp add: numeral_eq_Suc)
  have none: "\<exists>r s'. pthread_setname_np ?g 7 (Some ''worker'') example_state = Some (r, s') \<and>
      trace s' = [Open ''/proc/self/task/4242/comm'' O_RDWR, Write 3 ''worker'', Close 3]"
    using setname_write_retry [OF t l o' op' intr' w', of example_state]
    unfolding p' b tr by simp
  show ?thesis
    using one none t l o by (simp add: example_env_def EINTR_def)
qed

text \<open>
  C7. For every call for another thread that passes the checks, the file opened is the one
  path \<^verbatim>\<open>/proc/self/task/<kernel id>/comm\<close>, with \<^verbatim>\<open>O_RDWR\<close>; the kernel id stands in it
  as its decimal numeral (digits only, no leading zero, reading back as the id) and the
  buffer never cuts the path short. What is written is the bytes of the name before the
  terminator, \<^verbatim>\<open>strlen(name)\<close> of them and none of them NUL, and it is written to the
  descriptor that this \<^verbatim>\<open>open\<close> returned, which is then closed. In full: when the open
  fails the function returns with that one \<^verbatim>\<open>open\<close> in the trace; when it gives a
  descriptor and the write is at attempt \<open>k\<close> no longer interrupted, the function returns
  with the open, \<open>k + 1\<close> writes of the name's bytes to that descriptor and its close in
  the trace; and every call that returns is one of these two.
\<close>

theorem setname_other_thread_file:
  assumes "thread \<noteq> 0" "strlen name < 16" "thread \<noteq> pthread_self e"
  shows "let id = fmt_u (unat (kernel_id (thread_at e thread)));
        path = ''/proc/self/task/'' @ id @ ''/comm'';
        buf = take (strlen name) name
    in decimal_value id = unat (kernel_id (thread_at e thread)) \<and>
       (\<forall>c \<in> set id. c \<in> set ''0123456789'') \<and>
       (id = ''0'' \<or> hd id \<noteq> CHR ''0'') \<and>
       buf = takeWhile (\<lambda>c. c \<noteq> CHR 0x00) name \<and>
       length buf = strlen name \<and>
       CHR 0x00 \<notin> set buf \<and>
       (\<forall>x. on_open e path O_RDWR = Err x \<longrightarrow>
          pthread_setname_np e thread (Some name) s =
            Some (x, s\<lparr>trace := trace s @ [Open path O_RDWR]\<rparr>)) \<and>
       (\<forall>fd k.
          on_open e path O_RDWR = Ok fd \<and>
          (\<forall>i<k. on_write e i (int fd) buf = Err EINTR) \<and>
          on_write e k (int fd) buf \<noteq> Err EINTR \<longrightarrow>
          (\<exists>r s'. pthread_setname_np e thread (Some name) s = Some (r, s') \<and>
             trace s' = trace s @ [Open path O_RDWR] @
               replicate (Suc k) (Write (int fd) buf) @ [Close (int fd)])) \<and>
       (\<forall>r s'. pthread_setname_np e thread (Some name) s = Some (r, s') \<longrightarrow>
          (\<exists>x. on_open e path O_RDWR = Err x \<and>
             trace s' = trace s @ [Open path O_RDWR]) \<or>
          (\<exists>fd k. on_open e path O_RDWR = Ok fd \<and>
             (\<forall>i<k. on_write e i (int fd) buf = Err EINTR) \<and>
             on_write e k (int fd) buf \<noteq> Err EINTR \<and>
             trace s' = trace s @ [Open path O_RDWR] @
               replicate (Suc k) (Write (int fd) buf) @ [Close (int fd)]))"
proof -
  let ?id = "fmt_u (unat (kernel_id (thread_at e thread)))"
  let ?path = "''/proc/self/task/'' @ ?id @ ''/comm''"
  let ?buf = "take (strlen name) name"
  have path: "TASK_COMM_FMT (kernel_id (thread_at e thread)) = ?path"
    by (simp add: TASK_COMM_FMT_def)
  have id: "decimal_value ?id = unat (kernel_id (thread_at e thread))"
    "\<forall>c \<in> set ?id. c \<in> set ''0123456789''"
    "?id = ''0'' \<or> hd ?id \<noteq> CHR ''0''"
    using fmt_u_digits [of _ "unat (kernel_id (thread_at e thread))"]
    by (simp_all only: decimal_value_fmt_u fmt_u_no_leading_zero) blast
  have buf: "?buf = takeWhile (\<lambda>c. c \<noteq> CHR 0x00) name" "length ?buf = strlen name"
    "CHR 0x00 \<notin> set ?buf"
    by (rule take_strlen, rule length_take_strlen, rule no_NUL_take_strlen)
  have unopenable: "\<forall>x. on_open e ?path O_RDWR = Err x \<longrightarrow>
      pthread_setname_np e thread (Some name) s =
        Some (x, s\<lparr>trace := trace s @ [Open ?path O_RDWR]\<rparr>)"
    using setname_other_unopenable [OF assms, of _ s] unfolding path by blast
  have settles: "\<forall>fd k.
      on_open e ?path O_RDWR = Ok fd \<and>
      (\<forall>i<k. on_write e i (int fd) ?buf = Err EINTR) \<and>
      on_write e k (int fd) ?buf \<noteq> Err EINTR \<longrightarrow>
      (\<exists>r s'. pthread_setname_np e thread (Some name) s = Some (r, s') \<and>
         trace s' = trace s @ [Open ?path O_RDWR] @
           replicate (Suc k) (Write (int fd) ?buf) @ [Close (int fd)])"
  proof (intro allI impI, elim conjE)
    fix fd k
    assume "on_open e ?path O_RDWR = Ok fd"
      and "\<forall>i<k. on_write e i (int fd) ?buf = Err EINTR"
      and "on_write e k (int fd) ?buf \<noteq> Err EINTR"
    then show "\<exists>r s'. pthread_setname_np e thread (Some name) s = Some (r, s') \<and>
         trace s' = trace s @ [Open ?path O_RDWR] @
           replicate (Suc k) (Write (int fd) ?buf) @ [Close (int fd)]"
      using setname_other_settles [OF assms, of fd k s] unfolding path by blast
  qed
  have returns: "\<forall>r s'. pthread_setname_np e thread (Some name) s = Some (r, s') \<longrightarrow>
      (\<exists>x. on_open e ?path O_RDWR = Err x \<and>
         trace s' = trace s @ [Open ?path O_RDWR]) \<or>
      (\<exists>fd k. on_open e ?path O_RDWR = Ok fd \<and>
         (\<forall>i<k. on_write e i (int fd) ?buf = Err EINTR) \<and>
         on_write e k (int fd) ?buf \<noteq> Err EINTR \<and>
         trace s' = trace s @ [Open ?path O_RDWR] @
           replicate (Suc k) (Write (int fd) ?buf) @ [Close (int fd)])"
  proof (intro allI impI)
    fix r s'
    assume ret: "pthread_setname_np e thread (Some name) s = Some (r, s')"
    then obtain rs where "change_other_name e thread name (strlen name) s = Some rs"
      unfolding setname_other [OF assms] by auto
    from change_other_name_returns [OF this, unfolded path]
    show "(\<exists>x. on_open e ?path O_RDWR = Err x \<and>
         trace s' = trace s @ [Open ?path O_RDWR]) \<or>
      (\<exists>fd k. on_open e ?path O_RDWR = Ok fd \<and>
         (\<forall>i<k. on_write e i (int fd) ?buf = Err EINTR) \<and>
         on_write e k (int fd) ?buf \<noteq> Err EINTR \<and>
         trace s' = trace s @ [Open ?path O_RDWR] @
           replicate (Suc k) (Write (int fd) ?buf) @ [Close (int fd)])"
    proof (elim disjE exE conjE)
      fix x assume x: "on_open e ?path O_RDWR = Err x"
      from unopenable x ret have "trace s' = trace s @ [Open ?path O_RDWR]" by auto
      with x show ?thesis by blast
    next
      fix fd k
      assume op: "on_open e ?path O_RDWR = Ok fd"
        and intr: "\<forall>i<k. on_write e i (int fd) ?buf = Err EINTR"
        and last: "on_write e k (int fd) ?buf \<noteq> Err EINTR"
      from settles op intr last obtain r1 s1 where
        "pthread_setname_np e thread (Some name) s = Some (r1, s1)"
        "trace s1 = trace s @ [Open ?path O_RDWR] @
           replicate (Suc k) (Write (int fd) ?buf) @ [Close (int fd)]"
        by blast
      with ret have "trace s' = trace s @ [Open ?path O_RDWR] @
           replicate (Suc k) (Write (int fd) ?buf) @ [Close (int fd)]" by simp
      with op intr last show ?thesis by blast
    qed
  qed
  show ?thesis
    unfolding Let_def using id buf unopenable settles returns by (intro conjI)
qed

theorem setname_other_thread_file_witness:
  "(7 :: int) \<noteq> 0 \<and> strlen ''worker'' < 16 \<and> 7 \<noteq> pthread_self example_env \<and>
   kernel_id (thread_at example_env 7) = 4242 \<and>
   on_open example_env ''/proc/self/task/4242/comm'' O_RDWR = Ok 3 \<and>
   on_write example_env 0 3 ''worker'' = Err EINTR \<and>
   on_write example_env 1 3 ''worker'' \<noteq> Err EINTR \<and>
   (\<exists>r s'. pthread_setname_np example_env 7 (Some ''worker'') example_state = Some (r, s') \<and>
      trace s' = [Open ''/proc/self/task/4242/comm'' O_RDWR,
        Write 3 ''worker'', Write 3 ''worker'', Close 3]) \<and>
   on_open (example_env\<lparr>on_open := \<lambda>_ _. Err 13\<rparr>) ''/proc/self/task/4242/comm'' O_RDWR =
     Err 13 \<and>
   pthread_setname_np (example_env\<lparr>on_open := \<lambda>_ _. Err 13\<rparr>) 7 (Some ''worker'')
     example_state =
     Some (13, \<lparr>errno = 0, trace = [Open ''/proc/self/task/4242/comm'' O_RDWR]\<rparr>) \<and>
   decimal_value ''4242'' = 4242"
proof -
  let ?g = "example_env\<lparr>on_open := \<lambda>_ _. Err 13\<rparr>"
  have t: "(7 :: int) \<noteq> 0" by simp
  have l: "strlen ''worker'' < 16" by (simp add: strlen_def)
  have o: "7 \<noteq> pthread_self example_env" and o': "7 \<noteq> pthread_self ?g"
    by (simp_all add: example_env_def)
  have kid: "kernel_id (thread_at example_env 7) = 4242" "kernel_id (thread_at ?g 7) = 4242"
    by (simp_all add: example_env_def)
  have id: "fmt_u (unat (4242 :: 32 word)) = ''4242''"
    by (simp add: fmt_u.simps digit_def)
  have b: "take (strlen ''worker'') ''worker'' = ''worker''" by (simp add: strlen_def)
  have op: "on_open example_env ''/proc/self/task/4242/comm'' O_RDWR = Ok 3"
    and w0: "on_write example_env 0 3 ''worker'' = Err EINTR"
    and w1: "on_write example_env 1 3 ''worker'' \<noteq> Err EINTR"
    and op': "on_open ?g ''/proc/self/task/4242/comm'' O_RDWR = Err 13"
    by (simp_all add: example_env_def)
  have prem: "on_open example_env ''/proc/self/task/4242/comm'' O_RDWR = Ok 3 \<and>
      (\<forall>i<1. on_write example_env i (int 3) ''worker'' = Err EINTR) \<and>
      on_write example_env 1 (int 3) ''worker'' \<noteq> Err EINTR"
    by (simp add: example_env_def)
  note a = setname_other_thread_file [OF t l o, of example_state,
      unfolded Let_def kid id b append.simps]
  note a' = setname_other_thread_file [OF t l o', of example_state,
      unfolded Let_def kid id b append.simps]
  note settles = a [THEN conjunct2, THEN conjunct2, THEN conjunct2, THEN conjunct2,
      THEN conjunct2, THEN conjunct2, THEN conjunct2, THEN conjunct1, rule_format]
  note unopenable = a' [THEN conjunct2, THEN conjunct2, THEN conjunct2, THEN conjunct2,
      THEN conjunct2, THEN conjunct2, THEN conjunct1, rule_format]
  have run: "\<exists>r s'. pthread_setname_np example_env 7 (Some ''worker'') example_state = Some (r, s') \<and>
      trace s' = [Open ''/proc/self/task/4242/comm'' O_RDWR,
        Write 3 ''worker'', Write 3 ''worker'', Close 3]"
    using settles [OF prem] by (simp add: example_state_def numeral_eq_Suc)
  have unop: "pthread_setname_np ?g 7 (Some ''worker'') example_state =
     Some (13, \<lparr>errno = 0, trace = [Open ''/proc/self/task/4242/comm'' O_RDWR]\<rparr>)"
    using unopenable [OF op'] by (simp add: example_state_def)
  have dv: "decimal_value ''4242'' = 4242"
    using a [THEN conjunct1] by simp
  show ?thesis
    using t l o kid(1) op w0 w1 run op' unop dv by simp
qed

text \<open>
  C8. Whatever the function returns, the calling thread's \<^verbatim>\<open>errno\<close> is on return what
  it was at the call, also when a system call on the way has set it; the error travels
  in the returned value only.
\<close>

theorem setname_preserves_errno:
  "pthread_setname_np e thread thread_name s = Some (r, s') \<Longrightarrow> errno s' = errno s"
  by (rule setname_errno)

theorem setname_preserves_errno_witness:
  "pthread_setname_np (example_env\<lparr>on_open := \<lambda>_ _. Err 13\<rparr>) 7 (Some ''worker'')
     \<lparr>errno = 11, trace = []\<rparr> =
     Some (13, \<lparr>errno = 11, trace = [Open ''/proc/self/task/4242/comm'' O_RDWR]\<rparr>) \<and>
   errno \<lparr>errno = 11, trace = [Open ''/proc/self/task/4242/comm'' O_RDWR]\<rparr> =
     errno \<lparr>errno = 11, trace = []\<rparr>"
  using setname_preserves_errno [OF example_run_unopenable] example_run_unopenable
  by simp

text \<open>
  C9. A name of length zero is not rejected: a call with it that returns has issued a
  system call, so neither check has stopped it; it returns 0 for the calling thread
  when \<^verbatim>\<open>prctl\<close> succeeds, and for another thread when the file opens and the write of no
  bytes reports 0 bytes written.
\<close>

theorem setname_empty_name:
  assumes "thread \<noteq> 0" "strlen name = 0"
  shows "(\<forall>r s'. pthread_setname_np e thread (Some name) s = Some (r, s') \<longrightarrow>
        trace s' \<noteq> trace s) \<and>
     (thread = pthread_self e \<and> on_prctl e name = Ok () \<longrightarrow>
        (\<exists>s'. pthread_setname_np e thread (Some name) s = Some (0, s'))) \<and>
     (thread \<noteq> pthread_self e \<and>
      on_open e (TASK_COMM_FMT (kernel_id (thread_at e thread))) O_RDWR = Ok fd \<and>
      (\<forall>i<k. on_write e i (int fd) [] = Err EINTR) \<and>
      on_write e k (int fd) [] = Ok 0 \<longrightarrow>
        (\<exists>s'. pthread_setname_np e thread (Some name) s = Some (0, s')))"
proof (intro conjI impI allI)
  fix r s'
  assume "pthread_setname_np e thread (Some name) s = Some (r, s')"
  with assms show "trace s' \<noteq> trace s"
    by (intro setname_returns_trace [of thread name e s r s']) simp_all
next
  assume "thread = pthread_self e \<and> on_prctl e name = Ok ()"
  with assms setname_own [of thread name e s]
  show "\<exists>s'. pthread_setname_np e thread (Some name) s = Some (0, s')"
    by simp
next
  assume h: "thread \<noteq> pthread_self e \<and>
      on_open e (TASK_COMM_FMT (kernel_id (thread_at e thread))) O_RDWR = Ok fd \<and>
      (\<forall>i<k. on_write e i (int fd) [] = Err EINTR) \<and>
      on_write e k (int fd) [] = Ok 0"
  have l: "strlen name < 16" using assms(2) by simp
  have b: "take (strlen name) name = []" using assms(2) by simp
  have intr: "\<forall>i<k. on_write e i (int fd) (take (strlen name) name) = Err EINTR"
    unfolding b using h by simp
  have last: "on_write e k (int fd) (take (strlen name) name) \<noteq> Err EINTR"
    unfolding b using h by simp
  have w: "on_write e k (int fd) (take (strlen name) name) = Ok 0"
    unfolding b using h by simp
  from h have o: "thread \<noteq> pthread_self e"
    and op: "on_open e (TASK_COMM_FMT (kernel_id (thread_at e thread))) O_RDWR = Ok fd"
    by simp_all
  from setname_other_settles [OF assms(1) l o op intr last, of s]
  show "\<exists>s'. pthread_setname_np e thread (Some name) s = Some (0, s')"
    unfolding w using assms(2) by auto
qed

theorem setname_empty_name_witness:
  "(7 :: int) \<noteq> 0 \<and> strlen [] = 0 \<and>
   pthread_self example_env = 4096 \<and> on_prctl example_env [] = Ok () \<and>
   on_open example_env (TASK_COMM_FMT (kernel_id (thread_at example_env 7))) O_RDWR = Ok 3 \<and>
   on_write example_env 0 3 [] = Err EINTR \<and> on_write example_env 1 3 [] = Ok 0 \<and>
   (\<exists>s'. pthread_setname_np example_env 4096 (Some []) example_state = Some (0, s')) \<and>
   (\<exists>s'. pthread_setname_np example_env 7 (Some []) example_state = Some (0, s'))"
proof -
  have t: "(7 :: int) \<noteq> 0" and t': "(4096 :: int) \<noteq> 0" by simp_all
  have l: "strlen [] = 0" by (simp add: strlen_def)
  have own: "4096 = pthread_self example_env \<and> on_prctl example_env [] = Ok ()"
    by (simp add: example_env_def)
  have other: "7 \<noteq> pthread_self example_env \<and>
      on_open example_env (TASK_COMM_FMT (kernel_id (thread_at example_env 7))) O_RDWR = Ok 3 \<and>
      (\<forall>i<1. on_write example_env i (int 3) [] = Err EINTR) \<and>
      on_write example_env 1 (int 3) [] = Ok 0"
    by (simp add: example_env_def)
  have a: "\<exists>s'. pthread_setname_np example_env 4096 (Some []) example_state = Some (0, s')"
    using setname_empty_name [OF t' l, of example_env example_state] own by blast
  have b: "\<exists>s'. pthread_setname_np example_env 7 (Some []) example_state = Some (0, s')"
    using setname_empty_name [OF t l, of example_env example_state 3 1] other by blast
  show ?thesis
    using a b t l by (simp add: example_env_def)
qed

text \<open>
  C10. For a class \<open>c\<close> and a data value \<open>d\<close> below \<open>2 ^ 13\<close>, the class and the data
  of \<^verbatim>\<open>IOPRIO_PRIO_VALUE(c, d)\<close> are \<open>c\<close> and \<open>d\<close> again, and the value is valid exactly
  when \<open>c\<close> is not \<^verbatim>\<open>IOPRIO_CLASS_NONE\<close>. The classes of the enum are 0 to 3; the
  theorem covers every \<open>c\<close> below \<open>2 ^ 18\<close>, for which the shifted value is a
  non-negative \<^verbatim>\<open>int\<close>.
\<close>

theorem ioprio_roundtrip:
  fixes c d :: "32 word"
  assumes "c < 2 ^ 18" and "d < 2 ^ 13"
  shows "IOPRIO_PRIO_CLASS (IOPRIO_PRIO_VALUE c d) = c \<and>
    IOPRIO_PRIO_DATA (IOPRIO_PRIO_VALUE c d) = d \<and>
    (ioprio_valid (IOPRIO_PRIO_VALUE c d) \<longleftrightarrow> c \<noteq> IOPRIO_CLASS_NONE)"
  using assms by (simp add: ioprio_class_value ioprio_data_value ioprio_valid_def)

theorem ioprio_roundtrip_witness:
  "IOPRIO_CLASS_BE < 2 ^ 18 \<and> IOPRIO_NORM < 2 ^ 13 \<and>
   IOPRIO_PRIO_CLASS (IOPRIO_PRIO_VALUE IOPRIO_CLASS_BE IOPRIO_NORM) = IOPRIO_CLASS_BE \<and>
   IOPRIO_PRIO_DATA (IOPRIO_PRIO_VALUE IOPRIO_CLASS_BE IOPRIO_NORM) = IOPRIO_NORM \<and>
   ioprio_valid (IOPRIO_PRIO_VALUE IOPRIO_CLASS_BE IOPRIO_NORM) \<and>
   \<not> ioprio_valid (IOPRIO_PRIO_VALUE IOPRIO_CLASS_NONE IOPRIO_NORM)"
proof -
  have be: "IOPRIO_CLASS_BE < 2 ^ 18" and none: "IOPRIO_CLASS_NONE < 2 ^ 18"
    and norm: "IOPRIO_NORM < 2 ^ 13"
    by (simp_all add: IOPRIO_CLASS_BE_def IOPRIO_CLASS_NONE_def IOPRIO_NORM_def)
  have ne: "IOPRIO_CLASS_BE \<noteq> IOPRIO_CLASS_NONE"
    by (simp add: IOPRIO_CLASS_BE_def IOPRIO_CLASS_NONE_def)
  show ?thesis
    using ioprio_roundtrip [OF be norm] ioprio_roundtrip [OF none norm] be norm ne by simp
qed

end
